theory Spec2Isabelle
  imports Main "HOL-Library.Sublist"
begin

section \<open>JavaScript strings and numbers used by the posts page\<close>

text \<open>
  A string is a list of code units; a \<^typ>\<open>char\<close> stands for a code unit in the range
  0..255 (Latin-1).  On that range the three string primitives the component uses are
  written out as ECMAScript defines them: \<open>trim\<close> strips white space and line
  terminators (TAB, LF, VT, FF, CR, SP, NBSP), \<open>toLowerCase\<close> maps A..Z and the
  accented capitals 192..222 (except the multiplication sign 215) to the letter 32
  places further, and \<open>includes\<close> tests for a contiguous occurrence.
\<close>

definition isWhiteSpace :: "char \<Rightarrow> bool" where
  "isWhiteSpace c = (let n = (of_char c :: nat) in
     n = 9 \<or> n = 10 \<or> n = 11 \<or> n = 12 \<or> n = 13 \<or> n = 32 \<or> n = 160)"

definition trim :: "string \<Rightarrow> string" where
  "trim s = rev (dropWhile isWhiteSpace (rev (dropWhile isWhiteSpace s)))"

definition toLowerChar :: "char \<Rightarrow> char" where
  "toLowerChar c = (let n = (of_char c :: nat) in
     if (65 \<le> n \<and> n \<le> 90) \<or> (192 \<le> n \<and> n \<le> 222 \<and> n \<noteq> 215)
     then char_of (n + 32) else c)"

definition toLowerCase :: "string \<Rightarrow> string" where
  "toLowerCase s = map toLowerChar s"

text \<open>\<open>s.includes(t)\<close>: does \<open>t\<close> occur in \<open>s\<close> at some position?\<close>

fun str_includes :: "string \<Rightarrow> string \<Rightarrow> bool" where
  "str_includes [] t = (t = [])"
| "str_includes (c # cs) t = (prefix t (c # cs) \<or> str_includes cs t)"

text \<open>
  A number is an IEEE-754 double.  The identifiers of this program are whole numbers, and
  a whole-valued finite double is modelled as the \<^typ>\<open>int\<close> of the same value.  Comparison
  and \<open>Math.max\<close> are exact on doubles.  A sum is the exact sum rounded to the nearest
  double, a tie going to the even significand: \<open>roundToDouble\<close>, where the doubles near a
  magnitude of \<open>b\<close> bits are the multiples of \<open>2 ^ (b - 53)\<close>.
\<close>

function bitLength :: "int \<Rightarrow> nat" where
  "bitLength m = (if m \<le> 0 then 0 else Suc (bitLength (m div 2)))"
  by pat_completeness auto
termination
  by (relation "measure nat") auto

declare bitLength.simps [simp del]

definition roundMagnitude :: "int \<Rightarrow> int" where
  "roundMagnitude m =
     (let u = 2 ^ (bitLength m - 53); q = m div u; r = m mod u in
      if 2 * r < u then q * u
      else if u < 2 * r then (q + 1) * u
      else if even q then q * u else (q + 1) * u)"

definition roundToDouble :: "int \<Rightarrow> int" where
  "roundToDouble i = (if i < 0 then - roundMagnitude (- i) else roundMagnitude i)"

text \<open>
  \<open>Number.prototype.toString\<close> (radix 10) on a whole number.  The digits are those of
  the shortest decimal \<open>s * 10 ^ (n - k)\<close>, with \<open>k\<close> digits in \<open>s\<close>, that rounds to
  the number; of two such decimals the nearer is taken.  Up to \<open>n = 21\<close> the result is
  the plain decimal numeral, beyond that the exponent form \<open>d.ddde+x\<close>.  For a magnitude
  below \<open>2 ^ 53\<close> the shortest decimal is the number itself.
\<close>

definition digitChar :: "int \<Rightarrow> char" where
  "digitChar d = char_of (48 + d)"

function digits :: "int \<Rightarrow> string" where
  "digits n = (if n < 10 then [digitChar n] else digits (n div 10) @ [digitChar (n mod 10)])"
  by pat_completeness auto
termination
  by (relation "measure nat") auto

declare digits.simps [simp del]

definition roundTrips :: "int \<Rightarrow> int \<Rightarrow> bool" where
  "roundTrips m c = (roundMagnitude c = m)"

definition nearer :: "int \<Rightarrow> int \<Rightarrow> int \<Rightarrow> int \<Rightarrow> int" where
  "nearer m p lo hi =
     (if m - lo < hi - m then lo
      else if hi - m < m - lo then hi
      else if even (lo div p) then lo else hi)"

text \<open>
  The search for the shortest decimal of the magnitude \<open>m\<close>, from \<open>k\<close> digits on: the
  candidates with \<open>k\<close> digits are the two multiples of the matching power of ten around
  \<open>m\<close>.
\<close>

function shortest :: "int \<Rightarrow> nat \<Rightarrow> int" where
  "shortest m k =
     (if length (digits m) \<le> k then m
      else
        (let p = 10 ^ (length (digits m) - k); lo = (m div p) * p; hi = lo + p in
         if roundTrips m lo \<and> roundTrips m hi then nearer m p lo hi
         else if roundTrips m lo then lo
         else if roundTrips m hi then hi
         else shortest m (Suc k)))"
  by pat_completeness auto
termination
  by (relation "measure (\<lambda>(m, k). length (digits m) - k)") auto

declare shortest.simps [simp del]

definition significand :: "string \<Rightarrow> string" where
  "significand ds = rev (dropWhile (\<lambda>c. c = CHR ''0'') (rev ds))"

definition magnitudeToString :: "int \<Rightarrow> string" where
  "magnitudeToString m =
     (let ds = digits (shortest m 1); n = length ds in
      if n \<le> 21 then ds
      else
        (let s = significand ds in
         (if length s = 1 then s else hd s # CHR ''.'' # tl s) @ ''e+'' @ digits (int (n - 1))))"

definition toString :: "int \<Rightarrow> string" where
  "toString i = (if i < 0 then CHR ''-'' # magnitudeToString (- i) else magnitudeToString i)"

text \<open>The number that a string of decimal digits denotes.\<close>

definition decimalValue :: "string \<Rightarrow> int" where
  "decimalValue ds = foldl (\<lambda>a c. 10 * a + (of_char c - 48)) 0 ds"

text \<open>
  \<open>Math.max(...xs, y)\<close>: the greatest of the arguments.  The call spreads the list
  into arguments, one more than the list is long, and an engine accepts only so many:
  beyond its limit the call throws a \<open>RangeError\<close>.  The limit differs between engines
  and is a parameter, \<open>argLimit\<close>.
\<close>

datatype Exception = RangeError

definition Math_max :: "nat \<Rightarrow> int list \<Rightarrow> int \<Rightarrow> Exception + int" where
  "Math_max argLimit xs y =
     (if argLimit < length xs + 1 then Inl RangeError else Inr (fold max xs y))"


section \<open>The data model (post.model.ts)\<close>

text \<open>
  \<open>interface Post { id?: number; userId: number; title: string; body: string }\<close>.
  The optional \<open>id\<close> is \<open>None\<close> when the property is \<open>undefined\<close>.
\<close>

record Post =
  postId :: "int option"
  userId :: int
  title :: string
  body :: string


section \<open>The reactive form\<close>

text \<open>
  \<open>fb.group({title: ['', [required, maxLength(100)]], body: ['', [required, maxLength(500)]]})\<close>.
  A control holds its value (\<open>None\<close> is \<open>null\<close>, the value after \<open>reset()\<close>) and
  its touched flag.
\<close>

record FormControl =
  ctlValue :: "string option"
  touched :: bool

record FormGroup =
  titleCtl :: FormControl
  bodyCtl :: FormControl

text \<open>\<open>Validators.required\<close> rejects \<open>null\<close> and the empty string.\<close>

definition required :: "string option \<Rightarrow> bool" where
  "required v = (case v of None \<Rightarrow> False | Some x \<Rightarrow> x \<noteq> [])"

text \<open>\<open>Validators.maxLength(n)\<close> accepts \<open>null\<close> and any string of at most \<open>n\<close> units.\<close>

definition maxLength :: "nat \<Rightarrow> string option \<Rightarrow> bool" where
  "maxLength n v = (case v of None \<Rightarrow> True | Some x \<Rightarrow> length x \<le> n)"

definition titleValid :: "FormControl \<Rightarrow> bool" where
  "titleValid c = (required (ctlValue c) \<and> maxLength 100 (ctlValue c))"

definition bodyValid :: "FormControl \<Rightarrow> bool" where
  "bodyValid c = (required (ctlValue c) \<and> maxLength 500 (ctlValue c))"

definition invalid :: "FormGroup \<Rightarrow> bool" where
  "invalid f = (\<not> (titleValid (titleCtl f) \<and> bodyValid (bodyCtl f)))"

definition markAllAsTouched :: "FormGroup \<Rightarrow> FormGroup" where
  "markAllAsTouched f =
     f\<lparr>titleCtl := (titleCtl f)\<lparr>touched := True\<rparr>, bodyCtl := (bodyCtl f)\<lparr>touched := True\<rparr>\<rparr>"

definition patchValue :: "string \<Rightarrow> string \<Rightarrow> FormGroup \<Rightarrow> FormGroup" where
  "patchValue t b f =
     f\<lparr>titleCtl := (titleCtl f)\<lparr>ctlValue := Some t\<rparr>, bodyCtl := (bodyCtl f)\<lparr>ctlValue := Some b\<rparr>\<rparr>"

definition reset :: "FormGroup \<Rightarrow> FormGroup" where
  "reset f = \<lparr>titleCtl = \<lparr>ctlValue = None, touched = False\<rparr>,
              bodyCtl = \<lparr>ctlValue = None, touched = False\<rparr>\<rparr>"

text \<open>
  \<open>this.form.value.title!\<close>: the value of the control.  The component reads it only
  behind the \<open>form.invalid\<close> guard, where the value is a string; \<open>null\<close> is mapped to
  the empty string here to keep the function total.
\<close>

definition formValue :: "FormControl \<Rightarrow> string" where
  "formValue c = (case ctlValue c of None \<Rightarrow> [] | Some x \<Rightarrow> x)"


section \<open>The component's state\<close>

text \<open>
  The status line.  Each constructor is one of the component's message templates; the
  leading glyph of the template tells its kind: a check mark (success), a cross (failure),
  a warning sign, a memo (editing) or a magnifying glass (search result).
\<close>

datatype Message =
    PostsLoaded nat
  | LoadFailed
  | FormIncomplete
  | PostCreated string
  | CreateFailed
  | PostUpdated
  | UpdateFailed
  | PostDeleted
  | DeleteFailed
  | Editing string
  | SearchFound nat string

datatype Kind = Success | Failure | Warning | Info | Found

fun kind :: "Message \<Rightarrow> Kind" where
  "kind (PostsLoaded n) = Success"
| "kind LoadFailed = Failure"
| "kind FormIncomplete = Warning"
| "kind (PostCreated t) = Success"
| "kind CreateFailed = Failure"
| "kind PostUpdated = Success"
| "kind UpdateFailed = Failure"
| "kind PostDeleted = Success"
| "kind DeleteFailed = Failure"
| "kind (Editing t) = Info"
| "kind (SearchFound n t) = Found"

text \<open>The requests that \<open>PostsService\<close> sends (posts.service.ts).\<close>

datatype Request =
    GET_posts
  | GET_post int
  | POST_posts Post
  | PUT_post "int option" Post
  | DELETE_post "int option"

text \<open>
  The signals of \<open>PostsPage\<close>, its form, and the trace \<open>sent\<close> of the requests issued
  through the injected service.
\<close>

record PostsPage =
  allPosts :: "Post list"
  posts :: "Post list"
  form :: FormGroup
  searchTerm :: string
  editingPost :: "Post option"
  loading :: bool
  message :: "Message option"
  sent :: "Request list"

definition initial :: PostsPage where
  "initial = \<lparr>allPosts = [], posts = [],
     form = \<lparr>titleCtl = \<lparr>ctlValue = Some [], touched = False\<rparr>,
             bodyCtl = \<lparr>ctlValue = Some [], touched = False\<rparr>\<rparr>,
     searchTerm = [], editingPost = None, loading = False, message = None, sent = []\<rparr>"


section \<open>Helpers of the component\<close>

text \<open>\<open>generateNewId\<close>: \<open>Math.max(...allPosts.map(p => p.id || 0), 100) + 1\<close>.\<close>

definition idOrZero :: "Post \<Rightarrow> int" where
  "idOrZero p = (case postId p of None \<Rightarrow> 0 | Some n \<Rightarrow> if n = 0 then 0 else n)"

definition generateNewId :: "nat \<Rightarrow> PostsPage \<Rightarrow> Exception + int" where
  "generateNewId argLimit s =
     (let allIds = map idOrZero (allPosts s) in
      case Math_max argLimit allIds 100 of
        Inl e \<Rightarrow> Inl e
      | Inr m \<Rightarrow> Inr (roundToDouble (m + 1)))"

text \<open>The predicate of the \<open>filter\<close> call in \<open>applyCurrentFilter\<close>.\<close>

definition matchesTerm :: "string \<Rightarrow> Post \<Rightarrow> bool" where
  "matchesTerm t post =
     (str_includes (toLowerCase (title post)) (toLowerCase t) \<or>
      str_includes (toLowerCase (body post)) (toLowerCase t) \<or>
      (case postId post of None \<Rightarrow> False | Some n \<Rightarrow> str_includes (toString n) t) \<or>
      str_includes (toString (userId post)) t)"

definition applyCurrentFilter :: "PostsPage \<Rightarrow> PostsPage" where
  "applyCurrentFilter s =
     (let t = searchTerm s in
      if trim t = [] then s\<lparr>posts := allPosts s\<rparr>
      else s\<lparr>posts := filter (matchesTerm t) (allPosts s)\<rparr>)"

definition resetForm :: "PostsPage \<Rightarrow> PostsPage" where
  "resetForm s = s\<lparr>form := reset (form s), editingPost := None, message := None\<rparr>"


section \<open>Observables\<close>

text \<open>
  What an observable delivers to its observer.  A subscriber handles the notifications in
  order and is closed by the first \<open>error\<close> or \<open>complete\<close>: the two are exclusive, so
  an observer's \<open>complete\<close> callback does not run for a stream that fails.  An
  exception thrown by a callback is reported outside the stream (RxJS 7, the version the
  README names) and the subscriber goes on: such a callback is modelled by the state it
  had reached when it threw.
\<close>

datatype 'a Notification = NextN 'a | ErrorN | CompleteN

fun subscribe ::
  "('a \<Rightarrow> 's \<Rightarrow> 's) \<Rightarrow> ('s \<Rightarrow> 's) \<Rightarrow> ('s \<Rightarrow> 's) \<Rightarrow> 'a Notification list \<Rightarrow> 's \<Rightarrow> 's" where
  "subscribe nxt err cmp [] s = s"
| "subscribe nxt err cmp (NextN v # ns) s = subscribe nxt err cmp ns (nxt v s)"
| "subscribe nxt err cmp (ErrorN # ns) s = err s"
| "subscribe nxt err cmp (CompleteN # ns) s = cmp s"

text \<open>
  An \<open>HttpClient\<close> request answers once: the decoded body followed by completion, or an
  error (network failure or a status outside 2xx).
\<close>

datatype 'a HttpResult = HttpOk 'a | HttpError

fun emissions :: "'a HttpResult \<Rightarrow> 'a Notification list" where
  "emissions (HttpOk v) = [NextN v, CompleteN]"
| "emissions HttpError = [ErrorN]"


section \<open>CRUD operations of the component\<close>

text \<open>The \<open>complete\<close> callback shared by the four subscriptions.\<close>

definition stopLoading :: "PostsPage \<Rightarrow> PostsPage" where
  "stopLoading s = s\<lparr>loading := False\<rparr>"

subsection \<open>loadAll\<close>

definition loadAll_next :: "Post list \<Rightarrow> PostsPage \<Rightarrow> PostsPage" where
  "loadAll_next data s =
     s\<lparr>allPosts := data, posts := data, message := Some (PostsLoaded (length data))\<rparr>"

definition loadAll_error :: "PostsPage \<Rightarrow> PostsPage" where
  "loadAll_error s = s\<lparr>message := Some LoadFailed\<rparr>"

definition loadAll :: "Post list HttpResult \<Rightarrow> PostsPage \<Rightarrow> PostsPage" where
  "loadAll r s =
     (let s1 = s\<lparr>loading := True\<rparr>;
          s2 = s1\<lparr>message := None\<rparr>;
          s3 = s2\<lparr>sent := sent s2 @ [GET_posts]\<rparr>
      in subscribe loadAll_next loadAll_error stopLoading (emissions r) s3)"

definition ngOnInit :: "Post list HttpResult \<Rightarrow> PostsPage \<Rightarrow> PostsPage" where
  "ngOnInit r s = loadAll r s"

subsection \<open>create\<close>

text \<open>
  The first statement of the callback calls \<open>generateNewId\<close>; when that throws, the
  callback ends there with nothing written.
\<close>

definition create_next :: "nat \<Rightarrow> Post \<Rightarrow> PostsPage \<Rightarrow> PostsPage" where
  "create_next argLimit created s =
     (case generateNewId argLimit s of
        Inl e \<Rightarrow> s
      | Inr newId \<Rightarrow>
          (let newPostWithId = created\<lparr>postId := Some newId\<rparr>;
               updatedPosts = newPostWithId # allPosts s;
               s1 = s\<lparr>allPosts := updatedPosts\<rparr>;
               s2 = applyCurrentFilter s1;
               s3 = s2\<lparr>message := Some (PostCreated (title created))\<rparr>
           in resetForm s3))"

definition create_error :: "PostsPage \<Rightarrow> PostsPage" where
  "create_error s = s\<lparr>message := Some CreateFailed\<rparr>"

definition create :: "nat \<Rightarrow> Post HttpResult \<Rightarrow> PostsPage \<Rightarrow> PostsPage" where
  "create argLimit r s =
     (if invalid (form s)
      then (let s1 = s\<lparr>form := markAllAsTouched (form s)\<rparr>
            in s1\<lparr>message := Some FormIncomplete\<rparr>)
      else
        (let newPost = \<lparr>postId = None, userId = 1,
                         title = formValue (titleCtl (form s)),
                         body = formValue (bodyCtl (form s))\<rparr>;
             s1 = s\<lparr>loading := True\<rparr>;
             s2 = s1\<lparr>sent := sent s1 @ [POST_posts newPost]\<rparr>
         in subscribe (create_next argLimit) create_error stopLoading (emissions r) s2))"

subsection \<open>update\<close>

definition update_next :: "Post \<Rightarrow> Post \<Rightarrow> PostsPage \<Rightarrow> PostsPage" where
  "update_next post updatedPost s =
     (let currentPosts = allPosts s;
          updatedPosts = map (\<lambda>p. if postId p = postId post then updatedPost else p) currentPosts;
          s1 = s\<lparr>allPosts := updatedPosts\<rparr>;
          s2 = applyCurrentFilter s1;
          s3 = s2\<lparr>message := Some PostUpdated\<rparr>
      in resetForm s3)"

definition update_error :: "PostsPage \<Rightarrow> PostsPage" where
  "update_error s = s\<lparr>message := Some UpdateFailed\<rparr>"

definition update :: "Post HttpResult \<Rightarrow> PostsPage \<Rightarrow> PostsPage" where
  "update r s =
     (case editingPost s of
        None \<Rightarrow> s
      | Some post \<Rightarrow>
          if invalid (form s) then s
          else
            (let updatedPost = \<lparr>postId = postId post, userId = userId post,
                                 title = formValue (titleCtl (form s)),
                                 body = formValue (bodyCtl (form s))\<rparr>;
                 s1 = s\<lparr>loading := True\<rparr>;
                 s2 = s1\<lparr>sent := sent s1 @ [PUT_post (postId post) updatedPost]\<rparr>
             in subscribe (\<lambda>_. update_next post updatedPost) update_error stopLoading
                  (emissions r) s2))"

subsection \<open>delete\<close>

definition delete_next :: "Post \<Rightarrow> PostsPage \<Rightarrow> PostsPage" where
  "delete_next post s =
     (let currentPosts = allPosts s;
          filteredPosts = filter (\<lambda>p. postId p \<noteq> postId post) currentPosts;
          s1 = s\<lparr>allPosts := filteredPosts\<rparr>;
          s2 = applyCurrentFilter s1
      in s2\<lparr>message := Some PostDeleted\<rparr>)"

definition delete_error :: "PostsPage \<Rightarrow> PostsPage" where
  "delete_error s = s\<lparr>message := Some DeleteFailed\<rparr>"

text \<open>\<open>confirmed\<close> is the answer of the \<open>confirm(...)\<close> dialog.\<close>

definition delete :: "bool \<Rightarrow> unit HttpResult \<Rightarrow> Post \<Rightarrow> PostsPage \<Rightarrow> PostsPage" where
  "delete confirmed r post s =
     (if \<not> confirmed then s
      else
        (let s1 = s\<lparr>loading := True\<rparr>;
             s2 = s1\<lparr>sent := sent s1 @ [DELETE_post (postId post)]\<rparr>
         in subscribe (\<lambda>_. delete_next post) delete_error stopLoading (emissions r) s2))"


section \<open>Table and search functions\<close>

definition editPost :: "Post \<Rightarrow> PostsPage \<Rightarrow> PostsPage" where
  "editPost post s =
     (let s1 = s\<lparr>editingPost := Some post\<rparr>;
          s2 = s1\<lparr>form := patchValue (title post) (body post) (form s1)\<rparr>
      in s2\<lparr>message := Some (Editing (title post))\<rparr>)"

definition cancelEdit :: "PostsPage \<Rightarrow> PostsPage" where
  "cancelEdit s = resetForm s"

text \<open>\<open>search(event)\<close>; \<open>v\<close> is \<open>event.target.value\<close>.\<close>

definition search :: "string \<Rightarrow> PostsPage \<Rightarrow> PostsPage" where
  "search v s =
     (let t = toLowerCase v;
          s1 = s\<lparr>searchTerm := t\<rparr>;
          s2 = applyCurrentFilter s1
      in if trim t \<noteq> [] then s2\<lparr>message := Some (SearchFound (length (posts s2)) t)\<rparr>
         else s2\<lparr>message := None\<rparr>)"

definition clearSearch :: "PostsPage \<Rightarrow> PostsPage" where
  "clearSearch s =
     (let s1 = s\<lparr>searchTerm := []\<rparr>;
          s2 = applyCurrentFilter s1
      in s2\<lparr>message := None\<rparr>)"

definition isEditing :: "PostsPage \<Rightarrow> bool" where
  "isEditing s = (editingPost s \<noteq> None)"


section \<open>Sessions\<close>

text \<open>The user types into a control of the form.\<close>

definition typeTitle :: "string \<Rightarrow> PostsPage \<Rightarrow> PostsPage" where
  "typeTitle v s = s\<lparr>form := (form s)\<lparr>titleCtl := (titleCtl (form s))\<lparr>ctlValue := Some v\<rparr>\<rparr>\<rparr>"

definition typeBody :: "string \<Rightarrow> PostsPage \<Rightarrow> PostsPage" where
  "typeBody v s = s\<lparr>form := (form s)\<lparr>bodyCtl := (bodyCtl (form s))\<lparr>ctlValue := Some v\<rparr>\<rparr>\<rparr>"

text \<open>
  What can happen to the page: the user types into a form control, or one of the
  component's operations runs, together with the outcome of its request.  The session
  runs on an engine with the argument limit \<open>argLimit\<close>.
\<close>

datatype Event =
    TypeTitle string
  | TypeBody string
  | LoadAll "Post list HttpResult"
  | Create "Post HttpResult"
  | Update "Post HttpResult"
  | Delete bool "unit HttpResult" Post
  | EditPost Post
  | CancelEdit
  | Search string
  | ClearSearch

fun step :: "nat \<Rightarrow> Event \<Rightarrow> PostsPage \<Rightarrow> PostsPage" where
  "step argLimit (TypeTitle v) s = typeTitle v s"
| "step argLimit (TypeBody v) s = typeBody v s"
| "step argLimit (LoadAll r) s = loadAll r s"
| "step argLimit (Create r) s = create argLimit r s"
| "step argLimit (Update r) s = update r s"
| "step argLimit (Delete c r p) s = delete c r p s"
| "step argLimit (EditPost p) s = editPost p s"
| "step argLimit CancelEdit s = cancelEdit s"
| "step argLimit (Search v) s = search v s"
| "step argLimit ClearSearch s = clearSearch s"

fun run :: "nat \<Rightarrow> Event list \<Rightarrow> PostsPage \<Rightarrow> PostsPage" where
  "run argLimit [] s = s"
| "run argLimit (e # es) s = run argLimit es (step argLimit e s)"


section \<open>The specified behaviour, and sample data\<close>

text \<open>
  The filter as the specification words it: a blank term (nothing but white space) gives
  the whole list; otherwise an entry is kept when the lowercased term occurs in its
  lowercased title or body, or the term as given occurs in the decimal form of its
  identifier or of its owner id.
\<close>

definition blank :: "string \<Rightarrow> bool" where
  "blank t = list_all isWhiteSpace t"

definition spec_matches :: "string \<Rightarrow> Post \<Rightarrow> bool" where
  "spec_matches t e =
     (sublist (toLowerCase t) (toLowerCase (title e)) \<or>
      sublist (toLowerCase t) (toLowerCase (body e)) \<or>
      (\<exists>n. postId e = Some n \<and> sublist t (toString n)) \<or>
      sublist t (toString (userId e)))"

definition spec_filter :: "Post list \<Rightarrow> string \<Rightarrow> Post list" where
  "spec_filter m t = (if blank t then m else filter (spec_matches t) m)"

text \<open>The displayed list is the mirror with some entries left out.\<close>

definition displayedWithinMirror :: "PostsPage \<Rightarrow> bool" where
  "displayedWithinMirror s = subseq (posts s) (allPosts s)"

definition hello :: Post where
  "hello = \<lparr>postId = Some 7, userId = 3, title = ''Hello'', body = ''world''\<rparr>"

definition post1 :: Post where
  "post1 = \<lparr>postId = Some 1, userId = 1, title = ''one'', body = ''first''\<rparr>"

definition post2 :: Post where
  "post2 = \<lparr>postId = Some 2, userId = 1, title = ''two'', body = ''second''\<rparr>"

definition post3 :: Post where
  "post3 = \<lparr>postId = Some 3, userId = 2, title = ''three'', body = ''third''\<rparr>"

definition post5 :: Post where
  "post5 = \<lparr>postId = Some 5, userId = 2, title = ''five'', body = ''fifth''\<rparr>"

definition post9 :: Post where
  "post9 = \<lparr>postId = Some 9, userId = 4, title = ''nine'', body = ''ninth''\<rparr>"

definition draftTB :: Post where
  "draftTB = \<lparr>postId = None, userId = 1, title = ''T'', body = ''B''\<rparr>"

text \<open>A fresh page whose form holds title T and body B.\<close>

definition filled :: PostsPage where
  "filled = typeBody ''B'' (typeTitle ''T'' initial)"

text \<open>The same form on a page that has loaded the posts 2 and 5.\<close>

definition loadedFilled :: PostsPage where
  "loadedFilled = typeBody ''B'' (typeTitle ''T'' (loadAll (HttpOk [post2, post5]) initial))"

text \<open>A page that has loaded the posts 1 and 2 and edits post 2, with the title changed to X.\<close>

definition editingTwo :: PostsPage where
  "editingTwo = typeTitle ''X'' (editPost post2 (loadAll (HttpOk [post1, post2]) initial))"

text \<open>
  A post whose identifier is \<open>2 ^ 53\<close>, and a page that has loaded it and holds title T
  and body B in its form.
\<close>

definition postHuge :: Post where
  "postHuge = \<lparr>postId = Some 9007199254740992, userId = 1, title = ''huge'', body = ''h''\<rparr>"

definition hugeFilled :: PostsPage where
  "hugeFilled = typeBody ''B'' (typeTitle ''T'' (loadAll (HttpOk [postHuge]) initial))"

text \<open>A post with the identifier \<open>10 ^ 21\<close> and the owner 1203.\<close>

definition postSextillion :: Post where
  "postSextillion =
     \<lparr>postId = Some 1000000000000000000000, userId = 1203, title = ''t'', body = ''b''\<rparr>"


section \<open>Basic facts\<close>

lemma subscribe_ok [simp]: "subscribe n e c (emissions (HttpOk v)) s = c (n v s)"
  by simp

lemma subscribe_err [simp]: "subscribe n e c (emissions HttpError) s = e s"
  by simp


subsection \<open>Numbers\<close>

text \<open>Up to \<open>2 ^ 53\<close> every whole number is a double, so rounding leaves it alone.\<close>

lemma bitLength_le: "m < 2 ^ k \<Longrightarrow> bitLength m \<le> k"
proof (induction k arbitrary: m)
  case 0
  then show ?case by (simp add: bitLength.simps)
next
  case (Suc k)
  have "m div 2 < 2 ^ k" using Suc.prems by simp
  then have "bitLength (m div 2) \<le> k" by (rule Suc.IH)
  then show ?case by (subst bitLength.simps) simp
qed

lemma roundMagnitude_small: "m < 2 ^ 53 \<Longrightarrow> roundMagnitude m = m"
  using bitLength_le [of m 53] by (simp add: roundMagnitude_def Let_def)

lemma roundMagnitude_2_53: "roundMagnitude 9007199254740992 = 9007199254740992"
  by code_simp

lemma roundToDouble_safe:
  assumes "0 \<le> i" "i \<le> 9007199254740992"
  shows "roundToDouble i = i"
proof (cases "i = 9007199254740992")
  case True
  then show ?thesis by (simp add: roundToDouble_def roundMagnitude_2_53)
next
  case False
  with assms have "i < 2 ^ 53" by simp
  then show ?thesis using assms(1) by (simp add: roundToDouble_def roundMagnitude_small)
qed


lemma bitLength_pos_lower: "0 < m \<Longrightarrow> 2 ^ (bitLength m - 1) \<le> m"
proof (induction m rule: bitLength.induct)
  case (1 m)
  show ?case
  proof (cases "m div 2 \<le> 0")
    case True
    with "1.prems" have "m = 1" by presburger
    then show ?thesis by (simp add: bitLength.simps)
  next
    case False
    then have pos: "0 < m div 2" by simp
    have ih: "2 ^ (bitLength (m div 2) - 1) \<le> m div 2"
      using "1.IH" "1.prems" pos by simp
    have "0 < bitLength (m div 2)" using pos by (subst bitLength.simps) simp
    then have "bitLength m - 1 = Suc (bitLength (m div 2) - 1)"
      using "1.prems" by (subst bitLength.simps) simp
    then have "(2::int) ^ (bitLength m - 1) = 2 * 2 ^ (bitLength (m div 2) - 1)" by simp
    also have "\<dots> \<le> 2 * (m div 2)" using ih by simp
    also have "\<dots> \<le> m" by presburger
    finally show ?thesis .
  qed
qed

lemma bitLength_gt: "2 ^ k \<le> m \<Longrightarrow> k < bitLength m"
proof (induction k arbitrary: m)
  case 0
  then show ?case by (subst bitLength.simps) simp
next
  case (Suc k)
  then have "2 ^ k \<le> m div 2" by simp
  then have "k < bitLength (m div 2)" by (rule Suc.IH)
  moreover have "(0::int) < 2 ^ Suc k" by simp
  then have "0 < m" using Suc.prems by linarith
  ultimately show ?case by (subst bitLength.simps) simp
qed

lemma roundMagnitude_large:
  assumes "2 ^ 53 \<le> c"
  shows "2 ^ 53 \<le> roundMagnitude c"
proof -
  define b where "b = bitLength c"
  define u :: int where "u = 2 ^ (b - 53)"
  have b: "53 < b" unfolding b_def using assms by (rule bitLength_gt)
  have "(0::int) < 2 ^ 53" by simp
  then have cpos: "0 < c" using assms by linarith
  have low: "2 ^ (b - 1) \<le> c" unfolding b_def using cpos by (rule bitLength_pos_lower)
  have upos: "0 < u" by (simp add: u_def)
  have e: "b - 1 = 52 + (b - 53)" using b by simp
  have "(2::int) ^ (b - 1) = 2 ^ 52 * u"
    unfolding u_def by (subst e) (rule power_add)
  then have "2 ^ 52 * u \<le> c" using low by simp
  then have "(2 ^ 52 * u) div u \<le> c div u"
    using upos by (intro zdiv_mono1) simp_all
  then have "2 ^ 52 \<le> c div u" using upos by simp
  then have q: "2 ^ 52 * u \<le> (c div u) * u" using upos by simp
  have "(2::int) ^ 53 \<le> 2 ^ 52 * u"
  proof -
    have "(2::int) ^ 1 \<le> 2 ^ (b - 53)" using b by (intro power_increasing) simp_all
    then show ?thesis by (simp add: u_def)
  qed
  with q have base: "2 ^ 53 \<le> (c div u) * u" by linarith
  have "(c div u) * u \<le> (c div u + 1) * u" using upos by (simp add: algebra_simps)
  with base have "2 ^ 53 \<le> (c div u + 1) * u" by linarith
  with base show ?thesis
    by (simp add: roundMagnitude_def Let_def b_def [symmetric] u_def [symmetric])
qed

lemma shortest_safe:
  assumes "0 \<le> m" "m < 2 ^ 53"
  shows "shortest m k = m"
  using assms
proof (induction m k rule: shortest.induct)
  case (1 m k)
  show ?case
  proof (cases "length (digits m) \<le> k")
    case True
    then show ?thesis by (subst shortest.simps) simp
  next
    case False
    define p :: int where "p = 10 ^ (length (digits m) - k)"
    define lo where "lo = (m div p) * p"
    define hi where "hi = lo + p"
    have ppos: "0 < p" by (simp add: p_def)
    have split: "lo = m - m mod p" unfolding lo_def by (simp add: minus_mod_eq_div_mult)
    have md: "0 \<le> m mod p" "m mod p < p" using ppos by simp_all
    have lo: "lo \<le> m" using split md by linarith
    have hi: "m < hi" unfolding hi_def using split md by linarith
    have rlo: "roundTrips m lo \<longleftrightarrow> lo = m"
      using lo "1.prems"(2) roundMagnitude_small [of lo] by (simp add: roundTrips_def)
    have rhi: "\<not> roundTrips m hi"
    proof (cases "hi < 2 ^ 53")
      case True
      then show ?thesis using hi by (simp add: roundTrips_def roundMagnitude_small)
    next
      case False
      then have "2 ^ 53 \<le> roundMagnitude hi" by (intro roundMagnitude_large) simp
      then show ?thesis using "1.prems"(2) by (simp add: roundTrips_def)
    qed
    show ?thesis
    proof (cases "lo = m")
      case True
      have "\<not> roundTrips m (m + p)" using rhi by (simp add: hi_def True)
      then show ?thesis using False rlo True
        by (subst shortest.simps) (simp add: Let_def p_def [symmetric] lo_def [symmetric])
    next
      case ne: False
      have "shortest m (Suc k) = m"
        using "1.IH" [OF False refl refl refl] rlo rhi ne "1.prems"
        by (simp add: p_def [symmetric] lo_def [symmetric] hi_def [symmetric])
      then show ?thesis using False rlo rhi ne
        by (subst shortest.simps) (simp add: Let_def p_def [symmetric] lo_def [symmetric] hi_def [symmetric])
    qed
  qed
qed

text \<open>
  For magnitudes below \<open>2 ^ 53\<close> the string of a number is its decimal numeral, and
  the numeral denotes the number.
\<close>

lemma digits_length: "0 < k \<Longrightarrow> m < 10 ^ k \<Longrightarrow> length (digits m) \<le> k"
proof (induction k arbitrary: m)
  case 0
  then show ?case by simp
next
  case (Suc k)
  show ?case
  proof (cases "m < 10")
    case True
    then show ?thesis by (subst digits.simps) simp
  next
    case False
    then have "0 < k" using Suc.prems(2) by (cases k) simp_all
    moreover have "m div 10 < 10 ^ k" using Suc.prems(2) by simp
    ultimately have "length (digits (m div 10)) \<le> k" by (rule Suc.IH)
    then show ?thesis using False by (subst digits.simps) simp
  qed
qed

lemma magnitudeToString_safe:
  assumes "0 \<le> m" "m < 2 ^ 53"
  shows "magnitudeToString m = digits m"
proof -
  have "m < 10 ^ 21" using assms(2) by simp
  then have "length (digits m) \<le> 21" by (intro digits_length) simp_all
  then show ?thesis
    by (simp add: magnitudeToString_def Let_def shortest_safe [OF assms])
qed

lemma toString_safe:
  assumes "- (2 ^ 53) < i" "i < 2 ^ 53"
  shows "toString i = (if i < 0 then CHR ''-'' # digits (- i) else digits i)"
  using assms by (simp add: toString_def magnitudeToString_safe)

lemma of_char_digitChar: "0 \<le> d \<Longrightarrow> d < 10 \<Longrightarrow> of_char (digitChar d) = 48 + d"
  by (simp add: digitChar_def)

lemma decimalValue_digits: "0 \<le> n \<Longrightarrow> decimalValue (digits n) = n"
proof (induction n rule: digits.induct)
  case (1 n)
  show ?case
  proof (cases "n < 10")
    case True
    then show ?thesis using "1.prems"
      by (subst digits.simps) (simp add: decimalValue_def of_char_digitChar)
  next
    case False
    then have "decimalValue (digits (n div 10)) = n div 10"
      using "1.IH" "1.prems" by simp
    moreover have "of_char (digitChar (n mod 10)) = 48 + n mod 10"
      by (rule of_char_digitChar) simp_all
    ultimately show ?thesis using False
      by (subst digits.simps) (simp add: decimalValue_def)
  qed
qed

subsection \<open>The identifier generator\<close>

lemma fold_max_Max: "fold max xs (y::int) = Max (insert y (set xs))"
  by (metis Max.set_eq_fold list.simps(15))

lemma idOrZero_eq: "idOrZero p = (case postId p of None \<Rightarrow> 0 | Some n \<Rightarrow> n)"
  by (simp add: idOrZero_def split: option.splits)

lemma generateNewId_exact:
  assumes "length (allPosts s) < argLimit"
    and "\<forall>p \<in> set (allPosts s). idOrZero p < 9007199254740992"
  shows "generateNewId argLimit s = Inr (Max (insert 100 (set (map idOrZero (allPosts s)))) + 1)"
proof -
  define M where "M = Max (insert 100 (set (map idOrZero (allPosts s))))"
  have "M \<in> insert 100 (set (map idOrZero (allPosts s)))"
    unfolding M_def by (rule Max_in) simp_all
  then have up: "M < 9007199254740992" using assms(2) by auto
  have lo: "100 \<le> M" unfolding M_def by simp
  have "roundToDouble (M + 1) = M + 1"
  proof (rule roundToDouble_safe)
    show "0 \<le> M + 1" using lo by linarith
    show "M + 1 \<le> 9007199254740992" using up by linarith
  qed
  moreover have "generateNewId argLimit s = Inr (roundToDouble (M + 1))"
    using assms(1) by (simp add: generateNewId_def Math_max_def Let_def fold_max_Max M_def)
  ultimately show ?thesis by (simp add: M_def)
qed

lemma generateNewId_overflow:
  "argLimit \<le> length (allPosts s) \<Longrightarrow> generateNewId argLimit s = Inl RangeError"
  by (simp add: generateNewId_def Math_max_def Let_def)

subsection \<open>The filter, the form and the create handler\<close>

lemma str_includes_sublist: "str_includes s t \<longleftrightarrow> sublist t s"
  by (induction s) (auto simp: sublist_Cons_right)

lemma trim_empty_iff: "(trim s = []) = blank s"
  unfolding trim_def blank_def by (induction s) (auto simp: list_all_iff)

lemma matchesTerm_spec: "matchesTerm t e = spec_matches t e"
  unfolding matchesTerm_def spec_matches_def
  by (cases "postId e") (simp_all add: str_includes_sublist)

lemma applyCurrentFilter_spec:
  "posts (applyCurrentFilter s) = spec_filter (allPosts s) (searchTerm s)"
proof -
  have "matchesTerm t = spec_matches t" for t
    by (rule ext) (rule matchesTerm_spec)
  then show ?thesis
    by (simp add: applyCurrentFilter_def spec_filter_def Let_def trim_empty_iff)
qed

lemma applyCurrentFilter_frame:
  "allPosts (applyCurrentFilter s) = allPosts s"
  "searchTerm (applyCurrentFilter s) = searchTerm s"
  "form (applyCurrentFilter s) = form s"
  "editingPost (applyCurrentFilter s) = editingPost s"
  "loading (applyCurrentFilter s) = loading s"
  "message (applyCurrentFilter s) = message s"
  "sent (applyCurrentFilter s) = sent s"
  by (simp_all add: applyCurrentFilter_def Let_def)

lemma applyCurrentFilter_subseq:
  "subseq (posts (applyCurrentFilter s)) (allPosts s)"
  by (simp add: applyCurrentFilter_def Let_def)

lemma create_next_ok:
  assumes "generateNewId argLimit s = Inr k"
  shows "create_next argLimit c s =
    resetForm ((applyCurrentFilter (s\<lparr>allPosts := c\<lparr>postId := Some k\<rparr> # allPosts s\<rparr>))
      \<lparr>message := Some (PostCreated (title c))\<rparr>)"
  using assms by (simp add: create_next_def Let_def)

lemma create_next_thrown:
  assumes "generateNewId argLimit s = Inl e"
  shows "create_next argLimit c s = s"
  using assms by (simp add: create_next_def)

lemma generateNewId_within_limit:
  assumes "length (allPosts s) < argLimit"
  shows "\<exists>k. generateNewId argLimit s = Inr k"
  using assms by (simp add: generateNewId_def Math_max_def Let_def)

lemma generateNewId_allPosts:
  "allPosts s' = allPosts s \<Longrightarrow> generateNewId argLimit s' = generateNewId argLimit s"
  by (simp add: generateNewId_def)

lemma create_success:
  assumes "\<not> invalid (form s)" and "generateNewId argLimit s = Inr k"
  shows "create argLimit (HttpOk c) s =
    stopLoading (resetForm ((applyCurrentFilter
      (s\<lparr>loading := True,
         sent := sent s @ [POST_posts \<lparr>postId = None, userId = 1,
                    title = formValue (titleCtl (form s)), body = formValue (bodyCtl (form s))\<rparr>],
         allPosts := c\<lparr>postId := Some k\<rparr> # allPosts s\<rparr>))
      \<lparr>message := Some (PostCreated (title c))\<rparr>))"
proof -
  let ?s2 = "s\<lparr>loading := True,
         sent := sent s @ [POST_posts \<lparr>postId = None, userId = 1,
                    title = formValue (titleCtl (form s)), body = formValue (bodyCtl (form s))\<rparr>]\<rparr>"
  have "generateNewId argLimit ?s2 = Inr k"
    using assms(2) generateNewId_allPosts [of ?s2 s argLimit] by simp
  then have "create_next argLimit c ?s2 =
      resetForm ((applyCurrentFilter (?s2\<lparr>allPosts := c\<lparr>postId := Some k\<rparr> # allPosts ?s2\<rparr>))
        \<lparr>message := Some (PostCreated (title c))\<rparr>)"
    by (rule create_next_ok)
  then show ?thesis using assms(1)
    by (simp add: create_def Let_def)
qed

text \<open>A create on a mirror that the engine cannot spread leaves the mirror as it was.\<close>

lemma create_spread_overflow:
  assumes "\<not> invalid (form s)" and "argLimit \<le> length (allPosts s)"
  shows "allPosts (create argLimit (HttpOk c) s) = allPosts s"
  using assms
  by (simp add: create_def Let_def stopLoading_def
        create_next_thrown [OF generateNewId_overflow])

lemma invalid_iff:
  "invalid f \<longleftrightarrow>
     ctlValue (titleCtl f) = None \<or> ctlValue (titleCtl f) = Some [] \<or>
     (\<exists>x. ctlValue (titleCtl f) = Some x \<and> 100 < length x) \<or>
     ctlValue (bodyCtl f) = None \<or> ctlValue (bodyCtl f) = Some [] \<or>
     (\<exists>x. ctlValue (bodyCtl f) = Some x \<and> 500 < length x)"
  by (auto simp: invalid_def titleValid_def bodyValid_def required_def maxLength_def
        split: option.splits)

lemma valid_formValue:
  assumes "\<not> invalid f"
  shows "ctlValue (titleCtl f) = Some (formValue (titleCtl f))"
    and "ctlValue (bodyCtl f) = Some (formValue (bodyCtl f))"
  using assms
  by (auto simp: invalid_def titleValid_def bodyValid_def required_def formValue_def
        split: option.splits)

lemma filled_eval:
  "\<not> invalid (form filled)" "allPosts filled = []"
  by code_simp+

lemma loadedFilled_eval:
  "\<not> invalid (form loadedFilled)" "allPosts loadedFilled = [post2, post5]"
  by code_simp+

lemma hugeFilled_eval:
  "\<not> invalid (form hugeFilled)" "allPosts hugeFilled = [postHuge]"
  by code_simp+

lemma editingTwo_eval:
  "editingPost editingTwo = Some post2" "\<not> invalid (form editingTwo)"
  "allPosts editingTwo = [post1, post2]"
  by code_simp+


section \<open>The loading flag\<close>

text \<open>When the request succeeds, each operation ends with the flag cleared.\<close>

lemma loading_cleared_on_success:
  "\<not> loading (loadAll (HttpOk d) s)"
  "\<not> invalid (form s) \<Longrightarrow> \<not> loading (create argLimit (HttpOk c) s)"
  "editingPost s = Some p \<Longrightarrow> \<not> invalid (form s) \<Longrightarrow> \<not> loading (update (HttpOk u) s)"
  "\<not> loading (delete True (HttpOk ()) p s)"
  by (simp_all add: loadAll_def create_def update_def delete_def stopLoading_def Let_def)

text \<open>
  C1.  The loading flag is to be cleared when the remote call ends, whether it succeeds or
  fails.  The component clears it in the \<open>complete\<close> callback only, which a failed
  request never reaches: after a failed load, delete, create or update the flag is still
  set.  This holds for a load or a confirmed delete from any state, for the load of
  \<open>ngOnInit\<close>, for a create on a filled form and for an update of an entry under edit.
\<close>

theorem loading_stuck_after_failure:
  "loading (loadAll HttpError s) \<and> loading (delete True HttpError p s) \<and>
   loading (ngOnInit HttpError initial) \<and>
   loading (create argLimit HttpError filled) \<and>
   loading (update HttpError (editPost post1 initial))"
proof -
  have a: "loading (loadAll HttpError s)"
    by (simp add: loadAll_def loadAll_error_def Let_def)
  have b: "loading (delete True HttpError p s)"
    by (simp add: delete_def delete_error_def Let_def)
  have c: "loading (ngOnInit HttpError initial)"
    by (simp add: ngOnInit_def loadAll_def loadAll_error_def Let_def)
  have d: "loading (create argLimit HttpError filled)"
    by (simp add: create_def create_error_def Let_def filled_eval)
  have e: "loading (update HttpError (editPost post1 initial))"
    by code_simp
  from a b c d e show ?thesis by blast
qed


section \<open>The status after a successful create or update\<close>

text \<open>
  The form and the edit state are reset by both success handlers (for a create, on an
  engine that accepts the spread call of \<open>generateNewId\<close>: one whose limit exceeds the
  length of the mirror).
\<close>

lemma success_resets_form:
  "form (create_next (length (allPosts s) + 1 + n) c s) = reset (form s) \<and>
   editingPost (create_next (length (allPosts s) + 1 + n) c s) = None"
  "form (update_next p u s) = reset (form s) \<and> editingPost (update_next p u s) = None"
proof -
  obtain k where "generateNewId (length (allPosts s) + 1 + n) s = Inr k"
    using generateNewId_within_limit [of s "length (allPosts s) + 1 + n"] by auto
  then show "form (create_next (length (allPosts s) + 1 + n) c s) = reset (form s) \<and>
      editingPost (create_next (length (allPosts s) + 1 + n) c s) = None"
    by (simp add: create_next_ok resetForm_def applyCurrentFilter_frame)
  show "form (update_next p u s) = reset (form s) \<and> editingPost (update_next p u s) = None"
    by (simp add: update_next_def resetForm_def Let_def applyCurrentFilter_frame)
qed

text \<open>
  C2.  After a successful create or update the status is to be a success message.  Both
  success handlers set that message and then call \<open>resetForm\<close>, which sets the message to
  \<open>null\<close>: the handlers end with no status at all, from any state (for a create, on
  every engine whose limit exceeds the length of the mirror, so that the handler runs to
  its end), and so do a create on a filled form and an update of an entry under edit.
\<close>

theorem success_message_cleared:
  "message (create_next (length (allPosts s) + 1 + n) c s) = None \<and>
   message (update_next p u s) = None \<and>
   message (create (Suc n) (HttpOk draftTB) filled) = None \<and>
   message (update (HttpOk post1) (editPost post1 initial)) = None"
proof -
  obtain k where "generateNewId (length (allPosts s) + 1 + n) s = Inr k"
    using generateNewId_within_limit [of s "length (allPosts s) + 1 + n"] by auto
  then have a: "message (create_next (length (allPosts s) + 1 + n) c s) = None"
    by (simp add: create_next_ok resetForm_def)
  have b: "message (update_next p u s) = None"
    by (simp add: update_next_def resetForm_def Let_def)
  obtain j where "generateNewId (Suc n) filled = Inr j"
    using generateNewId_within_limit [of filled "Suc n"] by (auto simp: filled_eval)
  then have c: "message (create (Suc n) (HttpOk draftTB) filled) = None"
    by (simp add: create_success [OF filled_eval(1)] resetForm_def stopLoading_def)
  have d: "message (update (HttpOk post1) (editPost post1 initial)) = None"
    by code_simp
  from a b c d show ?thesis by blast
qed


section \<open>Identifiers of created entries\<close>

text \<open>
  C3, as the code has it.  Take a mirror whose identifiers are at most
  \<open>2 ^ 53 - 1\<close> (the safe integers) and which is short enough for the engine to accept
  the spread call.  A create on a valid form whose request succeeds puts the returned
  entry at the front of the mirror, with the identifier one more than the greatest of 100
  and the identifiers in the mirror (an absent identifier counting as 0); the rest of the
  mirror follows unchanged.  On a mirror whose greatest identifier is 5 the new identifier
  is 101.
\<close>

theorem create_assigns_id:
  assumes "\<not> invalid (form s)"
    and "length (allPosts s) < argLimit"
    and "\<forall>p \<in> set (allPosts s). \<forall>n. postId p = Some n \<longrightarrow> n \<le> 9007199254740991"
  shows "allPosts (create argLimit (HttpOk created) s) =
           created\<lparr>postId := Some (Max (insert 100
              (set (map (\<lambda>p. case postId p of None \<Rightarrow> 0 | Some n \<Rightarrow> n) (allPosts s)))) + 1)\<rparr>
           # allPosts s \<and>
         (allPosts s \<noteq> [] \<and>
          Max (set (map (\<lambda>p. case postId p of None \<Rightarrow> 0 | Some n \<Rightarrow> n) (allPosts s))) = 5 \<longrightarrow>
          postId (allPosts (create argLimit (HttpOk created) s) ! 0) = Some 101)"
proof -
  let ?ids = "set (map (\<lambda>p. case postId p of None \<Rightarrow> 0 | Some n \<Rightarrow> n) (allPosts s))"
  have same: "map idOrZero xs = map (\<lambda>p. case postId p of None \<Rightarrow> 0 | Some n \<Rightarrow> n) xs" for xs
    by (simp add: idOrZero_eq)
  have "\<forall>p \<in> set (allPosts s). idOrZero p < 9007199254740992"
    using assms(3) by (auto simp: idOrZero_eq split: option.splits)
  with assms(2) have "generateNewId argLimit s = Inr (Max (insert 100 ?ids) + 1)"
    by (simp add: generateNewId_exact same)
  then have mirror: "allPosts (create argLimit (HttpOk created) s) =
      created\<lparr>postId := Some (Max (insert 100 ?ids) + 1)\<rparr> # allPosts s"
    by (simp add: create_success [OF assms(1)] stopLoading_def resetForm_def
          applyCurrentFilter_frame)
  have "Max (insert 100 ?ids) = 100" if "allPosts s \<noteq> []" "Max ?ids = 5"
  proof -
    have "?ids \<noteq> {}" "finite ?ids" using that(1) by simp_all
    then have "Max (insert 100 ?ids) = max 100 (Max ?ids)"
      by (rule Max_insert[rotated])
    then show ?thesis using that(2) by simp
  qed
  with mirror show ?thesis by simp
qed

theorem create_assigns_id_witness:
  "\<not> invalid (form loadedFilled) \<and>
   length (allPosts loadedFilled) < 65536 \<and>
   map postId (allPosts loadedFilled) = [Some 2, Some 5] \<and>
   allPosts loadedFilled \<noteq> [] \<and>
   Max (set (map (\<lambda>p. case postId p of None \<Rightarrow> 0 | Some n \<Rightarrow> n) (allPosts loadedFilled))) = 5 \<and>
   allPosts (create 65536 (HttpOk draftTB) loadedFilled) = [draftTB\<lparr>postId := Some 101\<rparr>, post2, post5] \<and>
   postId (allPosts (create 65536 (HttpOk draftTB) loadedFilled) ! 0) = Some 101"
proof -
  have h2: "length (allPosts loadedFilled) < 65536"
    by (simp add: loadedFilled_eval)
  have h3: "\<forall>p \<in> set (allPosts loadedFilled). \<forall>n. postId p = Some n \<longrightarrow> n \<le> 9007199254740991"
    by (simp add: loadedFilled_eval post2_def post5_def)
  show ?thesis
    using create_assigns_id [OF loadedFilled_eval(1) h2 h3, of draftTB] loadedFilled_eval h2 h3
    by (simp add: post2_def post5_def)
qed

text \<open>
  C3 as stated, for every mirror, does not hold: the sum is a sum of doubles.  On the
  mirror holding the identifier \<open>2 ^ 53\<close> the new entry gets \<open>2 ^ 53\<close> again, not
  \<open>2 ^ 53 + 1\<close>.
\<close>

theorem create_id_repeated_at_2_53:
  "\<not> invalid (form hugeFilled) \<and>
   allPosts hugeFilled = [postHuge] \<and> postId postHuge = Some 9007199254740992 \<and>
   allPosts (create 65536 (HttpOk draftTB) hugeFilled)
     = [draftTB\<lparr>postId := Some 9007199254740992\<rparr>, postHuge] \<and>
   postId (allPosts (create 65536 (HttpOk draftTB) hugeFilled) ! 0)
     \<noteq> Some (Max (insert 100 (set (map idOrZero (allPosts hugeFilled)))) + 1)"
proof -
  have "roundToDouble (9007199254740992 + 1) = 9007199254740992"
    by code_simp
  then have "generateNewId 65536 hugeFilled = Inr 9007199254740992"
    by (simp add: generateNewId_def Math_max_def Let_def hugeFilled_eval postHuge_def
          idOrZero_def)
  then have m: "allPosts (create 65536 (HttpOk draftTB) hugeFilled)
     = [draftTB\<lparr>postId := Some 9007199254740992\<rparr>, postHuge]"
    by (simp add: create_success [OF hugeFilled_eval(1)] stopLoading_def resetForm_def
          applyCurrentFilter_frame hugeFilled_eval)
  have "Max (insert 100 (set (map idOrZero (allPosts hugeFilled)))) = 9007199254740992"
    by (simp add: hugeFilled_eval postHuge_def idOrZero_def)
  with m show ?thesis
    by (simp add: hugeFilled_eval postHuge_def)
qed

text \<open>
  On a mirror too long for the engine the spread call throws, and the create adds nothing:
  lemma \<open>create_spread_overflow\<close>.
\<close>


section \<open>The filter\<close>

text \<open>
  C4.  The displayed list computed by \<open>applyCurrentFilter\<close> is the filter of the
  specification on the mirror and the search term: the whole mirror for a blank term,
  otherwise the entries whose lowercased title or body contains the lowercased term or
  whose identifier or owner id, turned into a string, contains the term as given.  The
  entry with id 7, owner 3, title Hello and body world is kept for hel, WORLD, 7 and 3, and
  dropped for zzz.  The entry with id \<open>10 ^ 21\<close> (whose string is 1e+21) and owner 1203
  is kept for 203 and dropped for 1230; it is kept for e+21 and dropped for E+21, the term
  being compared with the number strings as it is given, not lowercased.
\<close>

theorem filter_function:
  "posts (applyCurrentFilter s) = spec_filter (allPosts s) (searchTerm s) \<and>
   posts (applyCurrentFilter (initial\<lparr>allPosts := [hello], searchTerm := ''hel''\<rparr>)) = [hello] \<and>
   posts (applyCurrentFilter (initial\<lparr>allPosts := [hello], searchTerm := ''WORLD''\<rparr>)) = [hello] \<and>
   posts (applyCurrentFilter (initial\<lparr>allPosts := [hello], searchTerm := ''7''\<rparr>)) = [hello] \<and>
   posts (applyCurrentFilter (initial\<lparr>allPosts := [hello], searchTerm := ''3''\<rparr>)) = [hello] \<and>
   posts (applyCurrentFilter (initial\<lparr>allPosts := [hello], searchTerm := ''zzz''\<rparr>)) = [] \<and>
   posts (applyCurrentFilter (initial\<lparr>allPosts := [postSextillion], searchTerm := ''203''\<rparr>))
     = [postSextillion] \<and>
   posts (applyCurrentFilter (initial\<lparr>allPosts := [postSextillion], searchTerm := ''1230''\<rparr>)) = [] \<and>
   posts (applyCurrentFilter (initial\<lparr>allPosts := [postSextillion], searchTerm := ''e+21''\<rparr>))
     = [postSextillion] \<and>
   posts (applyCurrentFilter (initial\<lparr>allPosts := [postSextillion], searchTerm := ''E+21''\<rparr>)) = []"
proof -
  have "posts (applyCurrentFilter (initial\<lparr>allPosts := [hello], searchTerm := ''hel''\<rparr>)) = [hello]"
    by code_simp
  moreover
  have "posts (applyCurrentFilter (initial\<lparr>allPosts := [hello], searchTerm := ''WORLD''\<rparr>)) = [hello]"
    by code_simp
  moreover
  have "posts (applyCurrentFilter (initial\<lparr>allPosts := [hello], searchTerm := ''7''\<rparr>)) = [hello]"
    by code_simp
  moreover
  have "posts (applyCurrentFilter (initial\<lparr>allPosts := [hello], searchTerm := ''3''\<rparr>)) = [hello]"
    by code_simp
  moreover
  have "posts (applyCurrentFilter (initial\<lparr>allPosts := [hello], searchTerm := ''zzz''\<rparr>)) = []"
    by code_simp
  moreover
  have "posts (applyCurrentFilter (initial\<lparr>allPosts := [postSextillion], searchTerm := ''203''\<rparr>))
     = [postSextillion]"
    by code_simp
  moreover
  have "posts (applyCurrentFilter (initial\<lparr>allPosts := [postSextillion], searchTerm := ''1230''\<rparr>)) = []"
    by code_simp
  moreover
  have "posts (applyCurrentFilter (initial\<lparr>allPosts := [postSextillion], searchTerm := ''e+21''\<rparr>))
     = [postSextillion]"
    by code_simp
  moreover
  have "posts (applyCurrentFilter (initial\<lparr>allPosts := [postSextillion], searchTerm := ''E+21''\<rparr>)) = []"
    by code_simp
  ultimately show ?thesis
    using applyCurrentFilter_spec [of s] by blast
qed


section \<open>Update and delete on the mirror\<close>

text \<open>
  C5.  While an entry is under edit and the form is valid, a successful update replaces
  every mirror entry that has the edited entry's identifier by one entry made of that
  identifier, the edited entry's owner id and the title and body held by the form; the
  mirror keeps its length, and every position holding another identifier keeps its entry.
\<close>

theorem update_replaces_by_id:
  assumes "editingPost s = Some post" and "\<not> invalid (form s)"
  shows "\<exists>e. postId e = postId post \<and> userId e = userId post \<and>
           ctlValue (titleCtl (form s)) = Some (title e) \<and>
           ctlValue (bodyCtl (form s)) = Some (body e) \<and>
           length (allPosts (update (HttpOk r) s)) = length (allPosts s) \<and>
           (\<forall>i < length (allPosts s).
              allPosts (update (HttpOk r) s) ! i =
                (if postId (allPosts s ! i) = postId post then e else allPosts s ! i))"
proof -
  let ?e = "\<lparr>postId = postId post, userId = userId post,
             title = formValue (titleCtl (form s)), body = formValue (bodyCtl (form s))\<rparr>"
  have mirror: "allPosts (update (HttpOk r) s) =
      map (\<lambda>p. if postId p = postId post then ?e else p) (allPosts s)"
    using assms
    by (simp add: update_def update_next_def resetForm_def stopLoading_def Let_def
          applyCurrentFilter_frame)
  have "postId ?e = postId post" "userId ?e = userId post"
    "ctlValue (titleCtl (form s)) = Some (title ?e)"
    "ctlValue (bodyCtl (form s)) = Some (body ?e)"
    using valid_formValue [OF assms(2)] by simp_all
  moreover have "length (allPosts (update (HttpOk r) s)) = length (allPosts s)"
    by (simp add: mirror)
  moreover have "\<forall>i < length (allPosts s).
      allPosts (update (HttpOk r) s) ! i =
        (if postId (allPosts s ! i) = postId post then ?e else allPosts s ! i)"
    by (simp add: mirror)
  ultimately show ?thesis by blast
qed

theorem update_replaces_by_id_witness:
  "editingPost editingTwo = Some post2 \<and> \<not> invalid (form editingTwo) \<and>
   allPosts editingTwo = [post1, post2] \<and>
   allPosts (update (HttpOk post2) editingTwo) = [post1, post2\<lparr>title := ''X''\<rparr>]"
proof -
  from update_replaces_by_id [OF editingTwo_eval(1,2), of post2]
  obtain e where e: "postId e = postId post2" "userId e = userId post2"
    "ctlValue (titleCtl (form editingTwo)) = Some (title e)"
    "ctlValue (bodyCtl (form editingTwo)) = Some (body e)"
    "length (allPosts (update (HttpOk post2) editingTwo)) = length (allPosts editingTwo)"
    "\<forall>i < length (allPosts editingTwo).
       allPosts (update (HttpOk post2) editingTwo) ! i =
         (if postId (allPosts editingTwo ! i) = postId post2 then e else allPosts editingTwo ! i)"
    by blast
  have "ctlValue (titleCtl (form editingTwo)) = Some ''X''"
    "ctlValue (bodyCtl (form editingTwo)) = Some ''second''"
    by code_simp+
  with e(1-4) have "e = post2\<lparr>title := ''X''\<rparr>"
    by (simp add: post2_def)
  moreover have "allPosts (update (HttpOk post2) editingTwo) ! 0 = post1"
    "allPosts (update (HttpOk post2) editingTwo) ! 1 = e"
    using e(6) by (simp_all add: editingTwo_eval(3) post1_def post2_def)
  moreover have "length (allPosts (update (HttpOk post2) editingTwo)) = 2"
    using e(5) by (simp add: editingTwo_eval(3))
  ultimately have "allPosts (update (HttpOk post2) editingTwo) = [post1, post2\<lparr>title := ''X''\<rparr>]"
    by (auto simp: list_eq_iff_nth_eq less_Suc_eq numeral_2_eq_2)
  then show ?thesis using editingTwo_eval by simp
qed

text \<open>
  C6.  A confirmed delete whose request succeeds leaves as mirror the previous mirror
  without the entries that have the deleted entry's identifier, the others in their
  previous order.  Deleting id 2 from the mirror of the posts 1, 2, 3 leaves the posts 1, 3.
\<close>

theorem delete_removes_by_id:
  "allPosts (delete True (HttpOk ()) post s) = filter (\<lambda>p. postId p \<noteq> postId post) (allPosts s) \<and>
   subseq (allPosts (delete True (HttpOk ()) post s)) (allPosts s) \<and>
   allPosts (delete True (HttpOk ()) post2 (loadAll (HttpOk [post1, post2, post3]) initial))
     = [post1, post3]"
proof -
  have "allPosts (delete True (HttpOk ()) post s) = filter (\<lambda>p. postId p \<noteq> postId post) (allPosts s)"
    by (simp add: delete_def delete_next_def stopLoading_def Let_def applyCurrentFilter_frame)
  moreover have "allPosts (delete True (HttpOk ()) post2 (loadAll (HttpOk [post1, post2, post3]) initial))
     = [post1, post3]"
    by code_simp
  ultimately show ?thesis by simp
qed


section \<open>Rejected input and failed loads\<close>

text \<open>
  C7.  On an invalid form (see \<open>invalid_iff\<close>: a title or body that is missing or over
  its bound) a create marks both controls as touched and sets the warning message; it
  sends no request and leaves the mirror, and every other field of the page, as it was.
\<close>

theorem create_invalid_form:
  assumes "invalid (form s)"
  shows "touched (titleCtl (form (create argLimit r s))) \<and>
         touched (bodyCtl (form (create argLimit r s))) \<and>
         message (create argLimit r s) = Some FormIncomplete \<and> kind FormIncomplete = Warning \<and>
         sent (create argLimit r s) = sent s \<and> allPosts (create argLimit r s) = allPosts s \<and>
         create argLimit r s = s\<lparr>form := markAllAsTouched (form s), message := Some FormIncomplete\<rparr>"
  using assms by (simp add: create_def markAllAsTouched_def Let_def)

theorem create_invalid_form_witness:
  "invalid (form initial) \<and>
   touched (titleCtl (form (create 65536 (HttpOk draftTB) initial))) \<and>
   touched (bodyCtl (form (create 65536 (HttpOk draftTB) initial))) \<and>
   message (create 65536 (HttpOk draftTB) initial) = Some FormIncomplete \<and>
   sent (create 65536 (HttpOk draftTB) initial) = [] \<and>
   allPosts (create 65536 (HttpOk draftTB) initial) = []"
proof -
  have h: "invalid (form initial)"
    by (simp add: initial_def invalid_def titleValid_def required_def)
  have i: "sent initial = []" "allPosts initial = []"
    by (simp_all add: initial_def)
  show ?thesis
    using h create_invalid_form [OF h, of 65536 "HttpOk draftTB"] i by (simp add: markAllAsTouched_def)
qed

text \<open>
  C8.  A load whose request fails leaves the mirror and the displayed list as they were
  and sets the failure message of the load.
\<close>

theorem loadAll_failure:
  "allPosts (loadAll HttpError s) = allPosts s \<and> posts (loadAll HttpError s) = posts s \<and>
   message (loadAll HttpError s) = Some LoadFailed \<and> kind LoadFailed = Failure"
  by (simp add: loadAll_def loadAll_error_def Let_def)


section \<open>The displayed list stays within the mirror\<close>

text \<open>The handlers that change the mirror recompute the displayed list from it.\<close>

lemma handlers_keep_displayed:
  "displayedWithinMirror (loadAll_next d s)"
  "displayedWithinMirror (create_next (length (allPosts s) + 1 + n) c s)"
  "displayedWithinMirror (update_next p u s)"
  "displayedWithinMirror (delete_next p s)"
proof -
  obtain k where "generateNewId (length (allPosts s) + 1 + n) s = Inr k"
    using generateNewId_within_limit [of s "length (allPosts s) + 1 + n"] by auto
  then show "displayedWithinMirror (create_next (length (allPosts s) + 1 + n) c s)"
    by (simp add: create_next_ok displayedWithinMirror_def resetForm_def applyCurrentFilter_frame
          applyCurrentFilter_subseq [of "s\<lparr>allPosts := xs\<rparr>" for s xs, simplified])
qed (simp_all add: displayedWithinMirror_def loadAll_next_def update_next_def
        delete_next_def resetForm_def Let_def applyCurrentFilter_frame
        applyCurrentFilter_subseq [of "s\<lparr>allPosts := xs\<rparr>" for s xs, simplified])

text \<open>
  On any engine the success handler of a create keeps the displayed list within the
  mirror: it recomputes the list, or it throws before it has written anything.
\<close>

lemma create_next_keeps_displayed:
  assumes "displayedWithinMirror s"
  shows "displayedWithinMirror (create_next argLimit c s)"
proof (cases "generateNewId argLimit s")
  case (Inl e)
  then show ?thesis using assms by (simp add: create_next_thrown)
next
  case (Inr k)
  then show ?thesis
    by (simp add: create_next_ok displayedWithinMirror_def resetForm_def applyCurrentFilter_frame
          applyCurrentFilter_subseq [of "s\<lparr>allPosts := xs\<rparr>" for s xs, simplified])
qed

text \<open>The other handlers touch neither list.\<close>

lemma handlers_leave_displayed:
  assumes "displayedWithinMirror s"
  shows "displayedWithinMirror (loadAll_error s)"
    "displayedWithinMirror (create_error s)"
    "displayedWithinMirror (update_error s)"
    "displayedWithinMirror (delete_error s)"
    "displayedWithinMirror (stopLoading s)"
  using assms
  by (simp_all add: displayedWithinMirror_def loadAll_error_def create_error_def update_error_def
        delete_error_def stopLoading_def)

lemma step_keeps_displayed:
  assumes "displayedWithinMirror s"
  shows "displayedWithinMirror (step argLimit e s)"
proof (cases e)
  case (LoadAll r)
  then show ?thesis using assms
    by (cases r) (simp_all add: loadAll_def displayedWithinMirror_def loadAll_next_def
          loadAll_error_def stopLoading_def Let_def)
next
  case (Create r)
  have "displayedWithinMirror (s\<lparr>loading := True, sent := xs\<rparr>)" for xs
    using assms by (simp add: displayedWithinMirror_def)
  then have "displayedWithinMirror (create_next argLimit c (s\<lparr>loading := True, sent := xs\<rparr>))"
    for c xs
    by (rule create_next_keeps_displayed)
  with Create show ?thesis using assms
    by (cases r) (simp_all add: create_def displayedWithinMirror_def
          create_error_def stopLoading_def Let_def)
next
  case (Update r)
  then show ?thesis using assms handlers_keep_displayed(3)
    by (cases r) (simp_all add: update_def displayedWithinMirror_def
          update_error_def stopLoading_def Let_def split: option.splits)
next
  case (Delete c r p)
  then show ?thesis using assms handlers_keep_displayed(4)
    by (cases r) (simp_all add: delete_def displayedWithinMirror_def
          delete_error_def stopLoading_def Let_def)
next
  case (Search v)
  then show ?thesis
    by (simp add: search_def displayedWithinMirror_def Let_def applyCurrentFilter_frame
          applyCurrentFilter_subseq [of "s\<lparr>searchTerm := t\<rparr>" for s t, simplified])
next
  case ClearSearch
  then show ?thesis
    by (simp add: clearSearch_def displayedWithinMirror_def Let_def applyCurrentFilter_frame
          applyCurrentFilter_subseq [of "s\<lparr>searchTerm := t\<rparr>" for s t, simplified])
qed (use assms in \<open>simp_all add: displayedWithinMirror_def editPost_def cancelEdit_def
       resetForm_def typeTitle_def typeBody_def Let_def\<close>)

lemma run_keeps_displayed:
  "displayedWithinMirror s \<Longrightarrow> displayedWithinMirror (run argLimit es s)"
  by (induction es arbitrary: s) (simp_all add: step_keeps_displayed)

text \<open>
  C9.  After any sequence of operations on a fresh page (load, create, update, delete,
  search, clear search, begin edit, reset, each with any outcome of its request, and typing
  into the form in between), on any engine, the displayed list is a subsequence of the
  mirror: it is the mirror with some entries left out, nothing added and nothing moved.
\<close>

theorem displayed_subseq_mirror:
  "subseq (posts (run argLimit es initial)) (allPosts (run argLimit es initial))"
proof -
  have "displayedWithinMirror initial"
    by (simp add: displayedWithinMirror_def initial_def)
  then have "displayedWithinMirror (run argLimit es initial)"
    by (rule run_keeps_displayed)
  then show ?thesis
    by (simp add: displayedWithinMirror_def)
qed


section \<open>Updating an entry that is not in the mirror\<close>

lemma update_unmatched:
  assumes "editingPost s = Some post" "\<not> invalid (form s)"
    and "postId post \<notin> postId ` set (allPosts s)"
  shows "allPosts (update (HttpOk r) s) = allPosts s"
    and "\<exists>u. sent (update (HttpOk r) s) = sent s @ [PUT_post (postId post) u]"
    and "message (update (HttpOk r) s) = None"
proof -
  have "map (\<lambda>p. if postId p = postId post then u else p) (allPosts s) = allPosts s" for u
    using assms(3) by (intro map_idI) (auto simp: image_iff)
  then show "allPosts (update (HttpOk r) s) = allPosts s"
    using assms(1,2)
    by (simp add: update_def update_next_def resetForm_def stopLoading_def Let_def
          applyCurrentFilter_frame)
  show "\<exists>u. sent (update (HttpOk r) s) = sent s @ [PUT_post (postId post) u]"
    using assms(1,2)
    by (simp add: update_def update_next_def resetForm_def stopLoading_def Let_def
          applyCurrentFilter_frame)
  show "message (update (HttpOk r) s) = None"
    using assms(1,2)
    by (simp add: update_def update_next_def resetForm_def stopLoading_def Let_def)
qed

text \<open>
  C10.  An update while editing an entry whose identifier is not in the mirror still
  sends the request and, when it succeeds, leaves the mirror as it was; a success message
  is to be set nevertheless.  On the page that has loaded post 1 and edits post 9 the
  request is sent and the mirror is unchanged, but the page ends with no status: the
  success message is overwritten by \<open>resetForm\<close>.
\<close>

theorem update_unmatched_no_status:
  "allPosts (update (HttpOk post9) (editPost post9 (loadAll (HttpOk [post1]) initial))) = [post1] \<and>
   sent (update (HttpOk post9) (editPost post9 (loadAll (HttpOk [post1]) initial)))
     = [GET_posts, PUT_post (Some 9) post9] \<and>
   message (update (HttpOk post9) (editPost post9 (loadAll (HttpOk [post1]) initial))) = None"
  by code_simp

end
